theory Spec2Isabelle
  imports Main "HOL-Library.Multiset"
begin

section \<open>Strings and Python values\<close>

text \<open>
  A Python \<open>str\<close> is modelled as a \<open>string\<close> holding its UTF-8 bytes. The only
  string operations of \<open>api_crawler_gpt.py\<close> that matter are equality, the emptiness
  test, concatenation (f-strings) and \<open>str.strip()\<close>.

  \<open>str.strip()\<close> removes whitespace code points from both ends. \<open>whitespace\<close> lists
  the UTF-8 encodings of every code point for which Python's \<open>str.isspace\<close> holds.
\<close>

definition whitespace :: "string list" where
  "whitespace =
    [[CHR 0x09], [CHR 0x0A], [CHR 0x0B], [CHR 0x0C], [CHR 0x0D],
     [CHR 0x1C], [CHR 0x1D], [CHR 0x1E], [CHR 0x1F], [CHR 0x20],
     [CHR 0xC2, CHR 0x85], [CHR 0xC2, CHR 0xA0],
     [CHR 0xE1, CHR 0x9A, CHR 0x80],
     [CHR 0xE2, CHR 0x80, CHR 0x80], [CHR 0xE2, CHR 0x80, CHR 0x81],
     [CHR 0xE2, CHR 0x80, CHR 0x82], [CHR 0xE2, CHR 0x80, CHR 0x83],
     [CHR 0xE2, CHR 0x80, CHR 0x84], [CHR 0xE2, CHR 0x80, CHR 0x85],
     [CHR 0xE2, CHR 0x80, CHR 0x86], [CHR 0xE2, CHR 0x80, CHR 0x87],
     [CHR 0xE2, CHR 0x80, CHR 0x88], [CHR 0xE2, CHR 0x80, CHR 0x89],
     [CHR 0xE2, CHR 0x80, CHR 0x8A], [CHR 0xE2, CHR 0x80, CHR 0xA8],
     [CHR 0xE2, CHR 0x80, CHR 0xA9], [CHR 0xE2, CHR 0x80, CHR 0xAF],
     [CHR 0xE2, CHR 0x81, CHR 0x9F], [CHR 0xE3, CHR 0x80, CHR 0x80]]"

definition ws_prefix :: "string list \<Rightarrow> string \<Rightarrow> string option" where
  "ws_prefix ws s = find (\<lambda>w. w \<noteq> [] \<and> take (length w) s = w) ws"

function strip_left :: "string list \<Rightarrow> string \<Rightarrow> string" where
  "strip_left ws s =
     (case ws_prefix ws s of
        None \<Rightarrow> s
      | Some w \<Rightarrow> strip_left ws (drop (length w) s))"
  by pat_completeness auto

termination
proof (relation "measure (\<lambda>(ws, s). length s)")
  show "wf (measure (\<lambda>(ws, s). length s))"
    by simp
next
  fix ws :: "string list" and s w :: string
  assume "ws_prefix ws s = Some w"
  then have "w \<noteq> []" and "take (length w) s = w"
    by (auto simp: ws_prefix_def find_Some_iff)
  then have "s \<noteq> []"
    by auto
  with \<open>w \<noteq> []\<close> show "((ws, drop (length w) s), (ws, s)) \<in> measure (\<lambda>(ws, s). length s)"
    by simp
qed

declare strip_left.simps [simp del]

definition lstrip :: "string \<Rightarrow> string" where
  "lstrip s = strip_left whitespace s"

definition rstrip :: "string \<Rightarrow> string" where
  "rstrip s = rev (strip_left (map rev whitespace) (rev s))"

definition strip :: "string \<Rightarrow> string" where
  "strip s = rstrip (lstrip s)"

text \<open>\<open>str(n)\<close> for an integer: its decimal digits, with a minus sign when negative.\<close>

function str_nat :: "nat \<Rightarrow> string" where
  "str_nat n = (if n < 10 then [''0123456789'' ! n]
                else str_nat (n div 10) @ [''0123456789'' ! (n mod 10)])"
  by pat_completeness auto

termination
  by (relation "measure id") auto

declare str_nat.simps [simp del]

definition str_int :: "int \<Rightarrow> string" where
  "str_int i = (if i < 0 then CHR ''-'' # str_nat (nat (- i)) else str_nat (nat i))"

text \<open>
  The values a result dictionary holds: strings, the integer row number, \<open>None\<close>
  (a JSON \<open>null\<close>), and any other JSON value (number, boolean, list, object), which is
  carried as the text \<open>str()\<close> gives for it, since the CSV writer is all that reads it.
\<close>

datatype pyval = PStr string | PInt int | PNone | POther string

type_synonym pydict = "string \<rightharpoonup> pyval"

text \<open>What \<open>csv.writer\<close> writes for a cell: \<open>None\<close> becomes the empty string, a
  string is written as it is, anything else through \<open>str()\<close>.\<close>

fun csv_cell :: "pyval \<Rightarrow> string" where
  "csv_cell (PStr s) = s"
| "csv_cell (PInt i) = str_int i"
| "csv_cell PNone = []"
| "csv_cell (POther s) = s"

section \<open>CSV files and the file system\<close>

text \<open>
  A CSV file is modelled by the records \<open>csv.reader\<close> yields for it, the header first;
  a blank line is the empty record. Quoting and line endings are the \<open>csv\<close> module's
  own business: a record written by \<open>csv.writer\<close> is read back as the same fields.
  The file system maps a path to the file stored there.
\<close>

type_synonym csv_file = "string list list"

type_synonym filesystem = "string \<rightharpoonup> csv_file"

text \<open>
  \<open>csv.DictReader.__next__\<close>: the row is zipped with the field names; when a name
  occurs twice the last occurrence wins; a field name beyond the end of a short row is
  given \<open>restval = None\<close>; surplus cells go under \<open>restkey\<close> and are never looked up.
  The result of \<open>row[key]\<close> is \<open>Some (Some s)\<close> for a string, \<open>Some None\<close> for
  Python's \<open>None\<close>, and \<open>None\<close> where Python raises \<open>KeyError\<close>.
\<close>

definition DictReader_row :: "string list \<Rightarrow> string list \<Rightarrow> (string \<rightharpoonup> string option)" where
  "DictReader_row fieldnames row =
     map_of (rev (zip fieldnames
        (map Some row @ replicate (length fieldnames - length row) None)))"

text \<open>The rows a \<open>DictReader\<close> iterates over once the header is read: blank records
  are skipped.\<close>

definition DictReader_rows :: "csv_file \<Rightarrow> string list list" where
  "DictReader_rows recs = filter (\<lambda>r. r \<noteq> []) (tl recs)"

section \<open>The work-item source: \<open>load_urls_from_csv\<close>\<close>

record work_item =
  url :: string
  original_row_num :: int

text \<open>How a call ends when it does not return: \<open>sys.exit(n)\<close>, or an exception
  nothing catches (named by its class).\<close>

datatype failure = SysExit int | Uncaught string

text \<open>
  First step (lines 33-41): the urls of the rows of the temp file whose
  \<open>crawl_status\<close> is \<open>success\<close>. The file is read outside any \<open>try\<close>: on an empty
  file \<open>reader.fieldnames\<close> is \<open>None\<close> and the membership test raises \<open>TypeError\<close>;
  on a short row whose \<open>url\<close> is \<open>None\<close>, \<open>.strip()\<close> raises \<open>AttributeError\<close>.
\<close>

fun scan_completed :: "string list \<Rightarrow> string list list \<Rightarrow> string set \<Rightarrow> failure + string set" where
  "scan_completed fieldnames [] completed_urls = Inr completed_urls"
| "scan_completed fieldnames (row # rows) completed_urls =
     (if DictReader_row fieldnames row ''crawl_status'' = Some (Some ''success'')
      then (case DictReader_row fieldnames row ''url'' of
              Some (Some u) \<Rightarrow> scan_completed fieldnames rows (insert (strip u) completed_urls)
            | _ \<Rightarrow> Inl (Uncaught ''AttributeError''))
      else scan_completed fieldnames rows completed_urls)"

definition load_completed :: "filesystem \<Rightarrow> string \<Rightarrow> failure + string set" where
  "load_completed fs temp_file =
     (case fs temp_file of
        None \<Rightarrow> Inr {}
      | Some [] \<Rightarrow> Inl (Uncaught ''TypeError'')
      | Some (fieldnames # rest) \<Rightarrow>
          if ''url'' \<in> set fieldnames \<and> ''crawl_status'' \<in> set fieldnames
          then scan_completed fieldnames (DictReader_rows (fieldnames # rest)) {}
          else Inr {})"

text \<open>
  Second step (lines 44-68): the manifest rows, numbered from 2 by \<open>enumerate\<close>.
  Every exception inside the \<open>try\<close> (a missing file, an empty file, a missing \<open>url\<close>
  header, a short row whose \<open>url\<close> is \<open>None\<close>) ends in \<open>sys.exit(1)\<close>.
\<close>

fun scan_manifest :: "string list \<Rightarrow> string set \<Rightarrow> int \<Rightarrow> string list list \<Rightarrow> work_item list
                       \<Rightarrow> failure + work_item list" where
  "scan_manifest fieldnames completed_urls row_num [] all_urls = Inr all_urls"
| "scan_manifest fieldnames completed_urls row_num (row # rows) all_urls =
     (case DictReader_row fieldnames row ''url'' of
        Some (Some cell) \<Rightarrow>
          (let u = strip cell in
           if u \<noteq> [] \<and> u \<notin> completed_urls
           then scan_manifest fieldnames completed_urls (row_num + 1) rows
                  (all_urls @ [\<lparr>url = u, original_row_num = row_num\<rparr>])
           else scan_manifest fieldnames completed_urls (row_num + 1) rows all_urls)
      | _ \<Rightarrow> Inl (SysExit 1))"

definition load_urls_from_csv :: "filesystem \<Rightarrow> string \<Rightarrow> string \<Rightarrow> failure + work_item list" where
  "load_urls_from_csv fs csv_file temp_file =
     (case load_completed fs temp_file of
        Inl e \<Rightarrow> Inl e
      | Inr completed_urls \<Rightarrow>
          (case fs csv_file of
             None \<Rightarrow> Inl (SysExit 1)
           | Some [] \<Rightarrow> Inl (SysExit 1)
           | Some (fieldnames # rest) \<Rightarrow>
               if ''url'' \<notin> set fieldnames then Inl (SysExit 1)
               else scan_manifest fieldnames completed_urls 2
                      (DictReader_rows (fieldnames # rest)) []))"

section \<open>The durable log: \<open>init_temp_csv\<close>, \<open>get_csv_columns\<close>, \<open>write_result_to_csv\<close>\<close>

definition get_csv_columns :: "string list" where
  "get_csv_columns =
     [''original_row_num'', ''url'', ''crawl_time'', ''crawl_status'', ''error_msg'',
      ''api'', ''package'', ''language'',
      ''deprecated_in'', ''removed_in'', ''replaced_by'', ''change_type'', ''reason'',
      ''source'']"

text \<open>\<open>init_temp_csv\<close> (lines 71-78): the header is written only when
  \<open>os.path.exists\<close> is false.\<close>

definition init_temp_csv :: "filesystem \<Rightarrow> string \<Rightarrow> filesystem" where
  "init_temp_csv fs temp_file =
     (if temp_file \<notin> dom fs then fs(temp_file \<mapsto> [get_csv_columns]) else fs)"

text \<open>
  \<open>write_result_to_csv\<close> (lines 136-144): \<open>filtered_result\<close> takes
  \<open>result.get(k, "")\<close> for each column \<open>k\<close>, and the writer turns it into one
  record. Opening with mode \<open>"a"\<close> creates a missing file. The lock has no effect on
  the value written.
\<close>

definition filtered_result :: "pydict \<Rightarrow> string list" where
  "filtered_result result =
     map (\<lambda>k. csv_cell (case result k of None \<Rightarrow> PStr [] | Some v \<Rightarrow> v)) get_csv_columns"

definition write_result_to_csv :: "pydict \<Rightarrow> string \<Rightarrow> filesystem \<Rightarrow> filesystem" where
  "write_result_to_csv result csv_file fs =
     fs(csv_file \<mapsto> (case fs csv_file of None \<Rightarrow> [] | Some recs \<Rightarrow> recs) @ [filtered_result result])"

section \<open>The extraction client: \<open>VisitGPT4o\<close>\<close>

text \<open>
  The text a chat completion carries is represented by what \<open>crawl_single_api\<close> makes
  of it: \<open>None\<close>; a string that \<open>strip()\<close> empties; a string \<open>json.loads\<close> rejects
  (with the decoder's message); or a JSON object (the request asks for
  \<open>response_format = json_object\<close>), as the dictionary \<open>json.loads\<close> returns.
  A call of the client returns such a text or raises (with \<open>str(e)\<close>).
\<close>

datatype reply = ReplyNone | ReplyBlank | ReplyMalformed string | ReplyObject pydict

datatype call_result = Returns reply | Raises string

text \<open>What \<open>requests.get\<close> and the HTML parser do for one page, and what one
  \<open>chat.completions.create\<close> does.\<close>

datatype fetch = Fetched string | FetchTimeout | FetchRequestException string
  | FetchOtherException string

datatype completion = Content reply | ApiError string

text \<open>\<open>read_webpage\<close> (lines 108-190) returns the page text, and the empty string
  from each of its three \<open>except\<close> branches.\<close>

fun read_webpage :: "fetch \<Rightarrow> string" where
  "read_webpage (Fetched text) = text"
| "read_webpage FetchTimeout = []"
| "read_webpage (FetchRequestException e) = []"
| "read_webpage (FetchOtherException e) = []"

text \<open>\<open>llm\<close> (lines 87-106): at most three API calls; the third failure is raised
  again. The \<open>return ""\<close> after the loop is kept as the blank reply.\<close>

function llm_from :: "(nat \<Rightarrow> completion) \<Rightarrow> nat \<Rightarrow> call_result" where
  "llm_from api attempt =
     (if attempt < 3 then
        (case api attempt of
           Content r \<Rightarrow> Returns r
         | ApiError e \<Rightarrow> if attempt = 3 - 1 then Raises e else llm_from api (Suc attempt))
      else Returns ReplyBlank)"
  by pat_completeness auto

termination
  by (relation "measure (\<lambda>(api, attempt). 3 - attempt)") auto

declare llm_from.simps [simp del]

definition llm :: "(nat \<Rightarrow> completion) \<Rightarrow> call_result" where
  "llm api = llm_from api 0"

definition cannot_read_page :: string where
  "cannot_read_page =
     [CHR 0xE6, CHR 0x97, CHR 0xA0, CHR 0xE6, CHR 0xB3, CHR 0x95, CHR 0xE8, CHR 0xAF, CHR 0xBB,
      CHR 0xE5, CHR 0x8F, CHR 0x96, CHR 0xE7, CHR 0xBD, CHR 0x91, CHR 0xE9, CHR 0xA1, CHR 0xB5,
      CHR 0xE5, CHR 0x86, CHR 0x85, CHR 0xE5, CHR 0xAE, CHR 0xB9]"

text \<open>
  \<open>VisitGPT4o.call\<close> (lines 192-222): when the page could not be read it returns
  \<open>json.dumps({"error": ...})\<close>, a JSON object text, and \<open>json.loads\<close> of that text
  is the one-key dictionary again. Otherwise it returns what \<open>llm\<close> returns.
\<close>

definition VisitGPT4o_call :: "fetch \<Rightarrow> (nat \<Rightarrow> completion) \<Rightarrow> call_result" where
  "VisitGPT4o_call page api =
     (let webpage_content = read_webpage page in
      if webpage_content = [] then Returns (ReplyObject [''error'' \<mapsto> PStr cannot_read_page])
      else llm api)"

section \<open>The retry wrapper: \<open>crawl_single_api\<close>\<close>

definition MAX_RETRIES :: nat where
  "MAX_RETRIES = 2"

text \<open>The fixed pieces of the two f-strings of lines 126 and 132, and the texts of the
  exceptions raised inside the \<open>try\<close> body, as UTF-8 bytes.\<close>

definition retry_msg_head :: string where
  "retry_msg_head = [CHR 0xE7, CHR 0xAC, CHR 0xAC]"

definition retry_msg_tail :: string where
  "retry_msg_tail =
     [CHR 0xE6, CHR 0xAC, CHR 0xA1, CHR 0xE9, CHR 0x87, CHR 0x8D, CHR 0xE8, CHR 0xAF, CHR 0x95,
      CHR 0xE5, CHR 0xA4, CHR 0xB1, CHR 0xE8, CHR 0xB4, CHR 0xA5, CHR 0xEF, CHR 0xBC, CHR 0x9A]"

definition exhausted_msg_head :: string where
  "exhausted_msg_head = [CHR 0xE8, CHR 0xB6, CHR 0x85, CHR 0xE8, CHR 0xBF, CHR 0x87]"

definition exhausted_msg_tail :: string where
  "exhausted_msg_tail =
     [CHR 0xE6, CHR 0xAC, CHR 0xA1, CHR 0xE9, CHR 0x87, CHR 0x8D, CHR 0xE8, CHR 0xAF, CHR 0x95,
      CHR 0xEF, CHR 0xBC, CHR 0x9A]"

definition empty_result_msg :: string where
  "empty_result_msg =
     [CHR 0xE7, CHR 0x88, CHR 0xAC, CHR 0xE5, CHR 0x8F, CHR 0x96, CHR 0xE7, CHR 0xBB, CHR 0x93,
      CHR 0xE6, CHR 0x9E, CHR 0x9C, CHR 0xE4, CHR 0xB8, CHR 0xBA, CHR 0xE7, CHR 0xA9, CHR 0xBA,
      CHR 0xE5, CHR 0xAD, CHR 0x97, CHR 0xE7, CHR 0xAC, CHR 0xA6, CHR 0xE4, CHR 0xB8, CHR 0xB2]"

definition none_strip_msg :: string where
  "none_strip_msg = CHR 0x27 # ''NoneType'' @ CHR 0x27 # '' object has no attribute ''
                    @ CHR 0x27 # ''strip'' @ [CHR 0x27]"

text \<open>\<open>str(v)\<close>, as an f-string formats a value.\<close>

fun py_str :: "pyval \<Rightarrow> string" where
  "py_str (PStr s) = s"
| "py_str (PInt i) = str_int i"
| "py_str PNone = ''None''"
| "py_str (POther s) = s"

text \<open>
  One pass through the \<open>try\<close> body of lines 107-123, given what
  \<open>visit_tool.call\<close> did: \<open>Inr api_data\<close> when the body reaches \<open>result.update\<close>,
  \<open>Inl (str e)\<close> when it raises (the call itself, \<open>None.strip()\<close>, the
  \<open>ValueError\<close> of line 116, or \<open>json.loads\<close>).
\<close>

fun try_body :: "call_result \<Rightarrow> string + pydict" where
  "try_body (Raises e) = Inl e"
| "try_body (Returns ReplyNone) = Inl none_strip_msg"
| "try_body (Returns ReplyBlank) = Inl empty_result_msg"
| "try_body (Returns (ReplyMalformed e)) = Inl e"
| "try_body (Returns (ReplyObject api_data)) = Inr api_data"

text \<open>What \<open>crawl_single_api\<close> returns, with the number of client calls and of sleeps
  it made on the way.\<close>

record crawl =
  result :: pydict
  calls :: nat
  sleeps :: nat

text \<open>The \<open>for retry in range(MAX_RETRIES)\<close> loop from \<open>retry\<close> on, and the two
  lines after it. \<open>client k\<close> is what the \<open>k\<close>-th call of the client does.\<close>

function retry_loop :: "nat \<Rightarrow> (nat \<Rightarrow> call_result) \<Rightarrow> nat \<Rightarrow> crawl \<Rightarrow> crawl" where
  "retry_loop max_retries client retry c =
     (if retry < max_retries then
        (case try_body (client retry) of
           Inr api_data \<Rightarrow>
             c\<lparr>result := (result c ++ api_data)
                   (''crawl_status'' \<mapsto> PStr ''success'', ''error_msg'' \<mapsto> PStr []),
               calls := Suc (calls c)\<rparr>
         | Inl e \<Rightarrow>
             retry_loop max_retries client (Suc retry)
               (c\<lparr>result := (result c)
                      (''error_msg'' \<mapsto> PStr (retry_msg_head @ str_nat (retry + 1) @ retry_msg_tail @ e)),
                  calls := Suc (calls c),
                  sleeps := (if retry < max_retries - 1 then Suc (sleeps c) else sleeps c)\<rparr>))
      else
        c\<lparr>result := (result c)
              (''error_msg'' \<mapsto> PStr (exhausted_msg_head @ str_nat max_retries @ exhausted_msg_tail
                 @ (case result c ''error_msg'' of Some v \<Rightarrow> py_str v | None \<Rightarrow> [])))\<rparr>)"
  by pat_completeness auto

termination
  by (relation "measure (\<lambda>(max_retries, client, retry, c). max_retries - retry)") auto

declare retry_loop.simps [simp del]

definition crawl_single_api ::
    "nat \<Rightarrow> string \<Rightarrow> (nat \<Rightarrow> call_result) \<Rightarrow> string \<Rightarrow> int \<Rightarrow> crawl" where
  "crawl_single_api max_retries now client u row_num =
     retry_loop max_retries client 0
       \<lparr>result = [''original_row_num'' \<mapsto> PInt row_num, ''url'' \<mapsto> PStr u,
                  ''crawl_time'' \<mapsto> PStr now, ''crawl_status'' \<mapsto> PStr ''failed'',
                  ''error_msg'' \<mapsto> PStr []],
        calls = 0, sleeps = 0\<rparr>"

section \<open>The driver: \<open>batch_crawl_large_scale\<close>\<close>

text \<open>\<open>os.remove\<close> and \<open>os.rename\<close>; both raise \<open>FileNotFoundError\<close> on a missing
  source.\<close>

definition os_remove :: "filesystem \<Rightarrow> string \<Rightarrow> failure + filesystem" where
  "os_remove fs p =
     (case fs p of None \<Rightarrow> Inl (Uncaught ''FileNotFoundError'') | Some f \<Rightarrow> Inr (fs(p := None)))"

definition os_rename :: "filesystem \<Rightarrow> string \<Rightarrow> string \<Rightarrow> failure + filesystem" where
  "os_rename fs src dst =
     (case fs src of
        None \<Rightarrow> Inl (Uncaught ''FileNotFoundError'')
      | Some f \<Rightarrow> Inr (if src = dst then fs else (fs(src := None))(dst \<mapsto> f)))"

text \<open>
  What a run meets outside the program:
  \<^item> \<open>page w k\<close> and \<open>api w k\<close>: the page fetch and the chat completions of the
    \<open>k\<close>-th client call for work item \<open>w\<close>;
  \<^item> \<open>task_clock\<close>, \<open>drain_clock\<close>: \<open>datetime.now()\<close> at lines 101 and 212;
  \<^item> \<open>fault w\<close>: an exception that escapes the task of \<open>w\<close> and is raised again by
    \<open>future.result\<close>;
  \<^item> \<open>finish w\<close>: the second, counted from the start of the run, at which the future of
    \<open>w\<close> is done; \<open>None\<close> when the task never returns.
\<close>

record env =
  page :: "work_item \<Rightarrow> nat \<Rightarrow> fetch"
  api :: "work_item \<Rightarrow> nat \<Rightarrow> nat \<Rightarrow> completion"
  task_clock :: "work_item \<Rightarrow> string"
  drain_clock :: "work_item \<Rightarrow> string"
  fault :: "work_item \<Rightarrow> string option"
  finish :: "work_item \<Rightarrow> nat option"

text \<open>The task submitted for a work item (line 175), with \<open>MAX_RETRIES\<close> attempts.\<close>

definition task :: "env \<Rightarrow> work_item \<Rightarrow> crawl" where
  "task e w =
     crawl_single_api MAX_RETRIES (task_clock e w)
       (\<lambda>k. VisitGPT4o_call (page e w k) (api e w k)) (url w) (original_row_num w)"

text \<open>
  \<open>as_completed\<close> yields each future once it is done, in the order in which they
  finish (futures done in the same second are taken in submission order), and waits
  for as long as one is still running.
\<close>

definition as_completed :: "env \<Rightarrow> work_item list \<Rightarrow> work_item list" where
  "as_completed e ws =
     sort_key (\<lambda>w. case finish e w of Some t \<Rightarrow> t | None \<Rightarrow> 0)
       (filter (\<lambda>w. finish e w \<noteq> None) ws)"

text \<open>\<open>future.result(timeout=60)\<close> on a future that \<open>as_completed\<close> has yielded: the
  future is done, so the call returns the task's value or raises the task's exception
  at once.\<close>

definition future_result :: "env \<Rightarrow> work_item \<Rightarrow> string + pydict" where
  "future_result e w = (case fault e w of Some x \<Rightarrow> Inl x | None \<Rightarrow> Inr (result (task e w)))"

definition thread_exception_msg :: string where
  "thread_exception_msg =
     [CHR 0xE7, CHR 0xBA, CHR 0xBF, CHR 0xE7, CHR 0xA8, CHR 0x8B, CHR 0xE6, CHR 0x89, CHR 0xA7,
      CHR 0xE8, CHR 0xA1, CHR 0x8C, CHR 0xE5, CHR 0xBC, CHR 0x82, CHR 0xE5, CHR 0xB8, CHR 0xB8,
      CHR 0xEF, CHR 0xBC, CHR 0x9A]"

record progress =
  completed_count :: nat
  success_count :: nat
  fail_count :: nat

text \<open>The body of the \<open>for future in as_completed(...)\<close> loop (lines 181-217) for one
  future.\<close>

definition drain_one :: "env \<Rightarrow> string \<Rightarrow> work_item \<Rightarrow> filesystem \<times> progress \<Rightarrow> filesystem \<times> progress" where
  "drain_one e temp_csv w st =
     (let fs = fst st; p = (snd st)\<lparr>completed_count := completed_count (snd st) + 1\<rparr> in
      case future_result e w of
        Inr r \<Rightarrow>
          (write_result_to_csv r temp_csv fs,
           if r ''crawl_status'' = Some (PStr ''success'')
           then p\<lparr>success_count := success_count p + 1\<rparr>
           else p\<lparr>fail_count := fail_count p + 1\<rparr>)
      | Inl x \<Rightarrow>
          (write_result_to_csv
             [''original_row_num'' \<mapsto> PInt (original_row_num w), ''url'' \<mapsto> PStr (url w),
              ''crawl_time'' \<mapsto> PStr (drain_clock e w), ''crawl_status'' \<mapsto> PStr ''failed'',
              ''error_msg'' \<mapsto> PStr (thread_exception_msg @ x)]
             temp_csv fs,
           p\<lparr>fail_count := fail_count p + 1\<rparr>))"

fun drain :: "env \<Rightarrow> string \<Rightarrow> work_item list \<Rightarrow> filesystem \<times> progress \<Rightarrow> filesystem \<times> progress" where
  "drain e temp_csv [] st = st"
| "drain e temp_csv (w # ws) st = drain e temp_csv ws (drain_one e temp_csv w st)"

text \<open>How a run of the driver ends: it stops (\<open>sys.exit\<close> or an uncaught exception), it
  waits for ever on a task that never returns, or it returns.\<close>

datatype run_end =
    Stopped failure filesystem
  | Blocked filesystem progress
  | Finished filesystem progress

text \<open>Lines 224-227: the temp file replaces the output file. An exception leaves the
  file system as it is at that moment: when \<open>os.rename\<close> raises, the old output file
  has already been removed.\<close>

definition promote :: "filesystem \<Rightarrow> string \<Rightarrow> string \<Rightarrow> (failure \<times> filesystem) + filesystem" where
  "promote fs temp_csv output_csv =
     (if temp_csv \<in> dom fs then
        (case (if output_csv \<in> dom fs then os_remove fs output_csv else Inr fs) of
           Inl x \<Rightarrow> Inl (x, fs)
         | Inr fs' \<Rightarrow>
             (case os_rename fs' temp_csv output_csv of
                Inl x \<Rightarrow> Inl (x, fs')
              | Inr fs'' \<Rightarrow> Inr fs''))
      else Inr fs)"

definition batch_crawl_large_scale :: "env \<Rightarrow> filesystem \<Rightarrow> string \<Rightarrow> string \<Rightarrow> string \<Rightarrow> run_end" where
  "batch_crawl_large_scale e fs input_csv output_csv temp_csv =
     (case load_urls_from_csv fs input_csv temp_csv of
        Inl x \<Rightarrow> Stopped x fs
      | Inr all_urls \<Rightarrow>
          if all_urls = [] then
            (if temp_csv \<in> dom fs \<and> output_csv \<notin> dom fs
             then (case os_rename fs temp_csv output_csv of
                     Inl x \<Rightarrow> Stopped x fs
                   | Inr fs' \<Rightarrow> Stopped (SysExit 0) fs')
             else Stopped (SysExit 0) fs)
          else
            (let st = drain e temp_csv (as_completed e all_urls)
                        (init_temp_csv fs temp_csv,
                         \<lparr>completed_count = 0, success_count = 0, fail_count = 0\<rparr>) in
             if \<exists>w \<in> set all_urls. finish e w = None then Blocked (fst st) (snd st)
             else (case promote (fst st) temp_csv output_csv of
                     Inl (x, fs') \<Rightarrow> Stopped x fs'
                   | Inr fs' \<Rightarrow> Finished fs' (snd st))))"

section \<open>Notions of the specification\<close>

text \<open>The string in a cell of a row read by \<open>DictReader\<close>; empty when there is
  none.\<close>

definition cell :: "string list \<Rightarrow> string list \<Rightarrow> string \<Rightarrow> string" where
  "cell fieldnames row key =
     (case DictReader_row fieldnames row key of Some (Some s) \<Rightarrow> s | _ \<Rightarrow> [])"

text \<open>\<open>completedUrls\<close>: the urls, stripped as \<open>load_urls_from_csv\<close> reads them, of
  the rows of the durable log whose \<open>crawl_status\<close> is \<open>success\<close>.\<close>

definition success_urls :: "csv_file \<Rightarrow> string set" where
  "success_urls recs =
     {u. \<exists>row \<in> set (DictReader_rows recs). \<exists>c.
           DictReader_row (hd recs) row ''crawl_status'' = Some (Some ''success'') \<and>
           DictReader_row (hd recs) row ''url'' = Some (Some c) \<and> u = strip c}"

definition completedUrls :: "filesystem \<Rightarrow> string \<Rightarrow> string set" where
  "completedUrls fs temp_file =
     (case fs temp_file of None \<Rightarrow> {} | Some recs \<Rightarrow> success_urls recs)"

text \<open>\<open>manifestUrls\<close>: one work item for each manifest row whose stripped \<open>url\<close> is
  not empty, numbered from 2 in row order.\<close>

fun manifest_from :: "string list \<Rightarrow> int \<Rightarrow> string list list \<Rightarrow> work_item list" where
  "manifest_from fieldnames n [] = []"
| "manifest_from fieldnames n (row # rows) =
     (if strip (cell fieldnames row ''url'') \<noteq> []
      then \<lparr>url = strip (cell fieldnames row ''url''), original_row_num = n\<rparr>
             # manifest_from fieldnames (n + 1) rows
      else manifest_from fieldnames (n + 1) rows)"

definition manifestUrls :: "filesystem \<Rightarrow> string \<Rightarrow> work_item list" where
  "manifestUrls fs csv_file =
     (case fs csv_file of
        None \<Rightarrow> []
      | Some recs \<Rightarrow> manifest_from (hd recs) 2 (DictReader_rows recs))"

text \<open>An attempt fails when the \<open>try\<close> body raises.\<close>

definition attempt_fails :: "call_result \<Rightarrow> bool" where
  "attempt_fails r = (case try_body r of Inl x \<Rightarrow> True | Inr d \<Rightarrow> False)"

text \<open>The dictionary the drain loop writes for a work item: the task's result, or the
  \<open>error_result\<close> of lines 209-215.\<close>

definition recorded :: "env \<Rightarrow> work_item \<Rightarrow> pydict" where
  "recorded e w =
     (case future_result e w of
        Inr r \<Rightarrow> r
      | Inl x \<Rightarrow>
          [''original_row_num'' \<mapsto> PInt (original_row_num w), ''url'' \<mapsto> PStr (url w),
           ''crawl_time'' \<mapsto> PStr (drain_clock e w), ''crawl_status'' \<mapsto> PStr ''failed'',
           ''error_msg'' \<mapsto> PStr (thread_exception_msg @ x)])"

text \<open>The durable log a run starts from: the temp file, or the header alone as
  \<open>init_temp_csv\<close> writes it.\<close>

definition prior_log :: "filesystem \<Rightarrow> string \<Rightarrow> csv_file" where
  "prior_log fs temp_csv = (case fs temp_csv of None \<Rightarrow> [get_csv_columns] | Some recs \<Rightarrow> recs)"

text \<open>The value of a column in a record of the durable log.\<close>

definition column :: "string \<Rightarrow> string list \<Rightarrow> string" where
  "column key row = cell get_csv_columns row key"

text \<open>The text \<open>write_result_to_csv\<close> puts in column \<open>key\<close> for a dictionary.\<close>

definition field_text :: "pydict \<Rightarrow> string \<Rightarrow> string" where
  "field_text r key = (case r key of None \<Rightarrow> [] | Some v \<Rightarrow> csv_cell v)"

text \<open>The file at a path when the run has ended.\<close>

fun files_after :: "run_end \<Rightarrow> filesystem" where
  "files_after (Stopped x fs) = fs"
| "files_after (Blocked fs p) = fs"
| "files_after (Finished fs p) = fs"

text \<open>Whether the driver returned, having promoted the log.\<close>

fun finished :: "run_end \<Rightarrow> bool" where
  "finished (Finished fs p) = True"
| "finished (Stopped x fs) = False"
| "finished (Blocked fs p) = False"

section \<open>Concrete runs\<close>

text \<open>A manifest of three urls and a log in which \<open>a\<close> failed and \<open>b\<close> succeeded.\<close>

definition resume_fs :: filesystem where
  "resume_fs =
     [''in'' \<mapsto> [[''url''], [''a''], ['' b ''], [''c'']],
      ''tmp'' \<mapsto> [[''url'', ''crawl_status''], [''a'', ''failed''], [''b'', ''success'']]]"

text \<open>A manifest of one url whose earlier run left a failed row in the log.\<close>

definition retry_fs :: filesystem where
  "retry_fs =
     [''in'' \<mapsto> [[''url''], [''u'']],
      ''tmp'' \<mapsto> [get_csv_columns,
                  [''2'', ''u'', ''t0'', ''failed'', ''boom'', [], [], [], [], [], [], [], [], []]]]"

text \<open>A manifest whose only url succeeded before, and an output file of an older
  run.\<close>

definition done_fs :: filesystem where
  "done_fs =
     [''in'' \<mapsto> [[''url''], [''a'']],
      ''tmp'' \<mapsto> [get_csv_columns,
                  [''2'', ''a'', ''t0'', ''success'', [], ''f'', [], [], [], [], [], [], [], []]],
      ''out'' \<mapsto> [[''old'']]]"

text \<open>A first run: a manifest and nothing else; and a manifest listing one url
  twice.\<close>

definition fresh_fs :: filesystem where
  "fresh_fs = [''in'' \<mapsto> [[''url''], [''u'']]]"

definition dup_fs :: filesystem where
  "dup_fs = [''in'' \<mapsto> [[''url''], [''a''], [''a'']]]"

text \<open>An environment in which every page is read, every completion is a JSON object
  and every task is done after one second; and one in which every task takes 100
  seconds.\<close>

definition quick_env :: env where
  "quick_env =
     \<lparr>page = (\<lambda>w k. Fetched ''text''),
      api = (\<lambda>w k j. Content (ReplyObject [''api'' \<mapsto> PStr ''f''])),
      task_clock = (\<lambda>w. ''t1''), drain_clock = (\<lambda>w. ''t2''),
      fault = (\<lambda>w. None), finish = (\<lambda>w. Some 1)\<rparr>"

definition slow_env :: env where
  "slow_env = quick_env\<lparr>finish := (\<lambda>w. Some 100)\<rparr>"

section \<open>What \<open>load_urls_from_csv\<close> returns\<close>

lemma scan_completed_Inr:
  "scan_completed fieldnames rows acc = Inr c \<Longrightarrow>
   c = acc \<union> {u. \<exists>row \<in> set rows. \<exists>s.
           DictReader_row fieldnames row ''crawl_status'' = Some (Some ''success'') \<and>
           DictReader_row fieldnames row ''url'' = Some (Some s) \<and> u = strip s}"
proof (induction rows arbitrary: acc)
  case Nil
  then show ?case by simp
next
  case (Cons row rows)
  show ?case
  proof (cases "DictReader_row fieldnames row ''crawl_status'' = Some (Some ''success'')")
    case True
    with Cons.prems obtain s where s: "DictReader_row fieldnames row ''url'' = Some (Some s)"
      and rest: "scan_completed fieldnames rows (insert (strip s) acc) = Inr c"
      by (auto split: option.splits)
    from Cons.IH [OF rest] True s show ?thesis by auto
  next
    case False
    with Cons.prems have "scan_completed fieldnames rows acc = Inr c" by simp
    from Cons.IH [OF this] False show ?thesis by auto
  qed
qed

lemma DictReader_row_no_key:
  "key \<notin> set fieldnames \<Longrightarrow> DictReader_row fieldnames row key = None"
  unfolding DictReader_row_def
  by (auto simp: map_of_eq_None_iff dest!: set_zip_leftD)

lemma load_completed_Inr:
  assumes "load_completed fs temp_file = Inr c"
  shows "c = completedUrls fs temp_file"
proof (cases "fs temp_file")
  case None
  with assms show ?thesis by (simp add: load_completed_def completedUrls_def)
next
  case (Some recs)
  show ?thesis
  proof (cases recs)
    case Nil
    with Some assms show ?thesis by (simp add: load_completed_def)
  next
    case (Cons fieldnames rest)
    show ?thesis
    proof (cases "''url'' \<in> set fieldnames \<and> ''crawl_status'' \<in> set fieldnames")
      case True
      with Some Cons assms
      have "scan_completed fieldnames (DictReader_rows recs) {} = Inr c"
        by (simp add: load_completed_def)
      from scan_completed_Inr [OF this] Some Cons show ?thesis
        by (simp add: completedUrls_def success_urls_def)
    next
      case False
      with Some Cons assms have "c = {}" by (auto simp: load_completed_def)
      moreover from False have "success_urls recs = {}"
        unfolding success_urls_def Cons by (auto simp: DictReader_row_no_key)
      ultimately show ?thesis using Some by (simp add: completedUrls_def)
    qed
  qed
qed

lemma scan_manifest_Inr:
  "scan_manifest fieldnames c n rows acc = Inr res \<Longrightarrow>
   res = acc @ filter (\<lambda>w. url w \<notin> c) (manifest_from fieldnames n rows)"
proof (induction rows arbitrary: n acc)
  case Nil
  then show ?case by simp
next
  case (Cons row rows)
  from Cons.prems obtain s where s: "DictReader_row fieldnames row ''url'' = Some (Some s)"
    by (auto split: option.splits)
  then have cell: "cell fieldnames row ''url'' = s" by (simp add: cell_def)
  show ?case
  proof (cases "strip s \<noteq> [] \<and> strip s \<notin> c")
    case True
    with Cons.prems s
    have "scan_manifest fieldnames c (n + 1) rows
            (acc @ [\<lparr>url = strip s, original_row_num = n\<rparr>]) = Inr res"
      by (simp add: Let_def)
    from Cons.IH [OF this] True cell show ?thesis by simp
  next
    case False
    with Cons.prems s have "scan_manifest fieldnames c (n + 1) rows acc = Inr res"
      by (auto simp: Let_def)
    from Cons.IH [OF this] False cell show ?thesis by auto
  qed
qed

lemma load_urls_from_csv_Inr:
  assumes "load_urls_from_csv fs csv_file temp_file = Inr all_urls"
  shows "all_urls = filter (\<lambda>w. url w \<notin> completedUrls fs temp_file) (manifestUrls fs csv_file)"
proof -
  from assms obtain c where c: "load_completed fs temp_file = Inr c"
    by (auto simp: load_urls_from_csv_def split: sum.splits)
  then have c_eq: "c = completedUrls fs temp_file" by (rule load_completed_Inr)
  from assms c obtain fieldnames rest where recs: "fs csv_file = Some (fieldnames # rest)"
    and scan: "scan_manifest fieldnames c 2 (DictReader_rows (fieldnames # rest)) [] = Inr all_urls"
    by (auto simp: load_urls_from_csv_def split: option.splits list.splits if_splits)
  from scan_manifest_Inr [OF scan] recs c_eq show ?thesis
    by (simp add: manifestUrls_def)
qed

lemma manifest_from_rows:
  "w \<in> set (manifest_from fieldnames n rows) \<Longrightarrow> url w \<noteq> [] \<and> n \<le> original_row_num w"
proof (induction rows arbitrary: n)
  case Nil
  then show ?case by simp
next
  case (Cons row rows)
  then show ?case by (fastforce split: if_splits)
qed

lemma manifest_from_distinct: "distinct (map original_row_num (manifest_from fieldnames n rows))"
proof (induction rows arbitrary: n)
  case Nil
  show ?case by simp
next
  case (Cons row rows)
  have "n \<notin> original_row_num ` set (manifest_from fieldnames (n + 1) rows)"
    using manifest_from_rows [of _ fieldnames "n + 1" rows] by fastforce
  with Cons.IH [of "n + 1"] show ?case by simp
qed

text \<open>
  Claim C2. When \<open>load_urls_from_csv\<close> returns, the pending work items are exactly the
  manifest entries (stripped, non-empty urls) whose url is not in \<open>completedUrls\<close>, the
  set of urls of the durable-log rows with \<open>crawl_status = success\<close>: a manifest entry
  is skipped if and only if some log row with status \<open>success\<close> carries its url. A url
  whose log rows all have another status, \<open>failed\<close> for one, is not in that set, so it
  is pending again.
\<close>

theorem load_urls_from_csv_pending:
  assumes "load_urls_from_csv fs csv_file temp_file = Inr all_urls"
  shows "all_urls = filter (\<lambda>w. url w \<notin> completedUrls fs temp_file) (manifestUrls fs csv_file)
         \<and> (\<forall>w \<in> set (manifestUrls fs csv_file).
               (w \<notin> set all_urls) = (url w \<in> completedUrls fs temp_file))
         \<and> (\<forall>recs. fs temp_file = Some recs \<longrightarrow>
               completedUrls fs temp_file =
                 {u. \<exists>row \<in> set (DictReader_rows recs). \<exists>c.
                       DictReader_row (hd recs) row ''crawl_status'' = Some (Some ''success'') \<and>
                       DictReader_row (hd recs) row ''url'' = Some (Some c) \<and> u = strip c})"
proof -
  have eq: "all_urls = filter (\<lambda>w. url w \<notin> completedUrls fs temp_file) (manifestUrls fs csv_file)"
    using assms by (rule load_urls_from_csv_Inr)
  have "\<forall>w \<in> set (manifestUrls fs csv_file).
          (w \<notin> set all_urls) = (url w \<in> completedUrls fs temp_file)"
    by (subst eq) simp
  moreover have "\<forall>recs. fs temp_file = Some recs \<longrightarrow>
               completedUrls fs temp_file =
                 {u. \<exists>row \<in> set (DictReader_rows recs). \<exists>c.
                       DictReader_row (hd recs) row ''crawl_status'' = Some (Some ''success'') \<and>
                       DictReader_row (hd recs) row ''url'' = Some (Some c) \<and> u = strip c}"
    by (simp add: completedUrls_def success_urls_def)
  ultimately show ?thesis using eq by blast
qed

section \<open>What \<open>crawl_single_api\<close> returns\<close>

lemma retry_loop_done:
  "\<not> retry < m \<Longrightarrow>
   retry_loop m client retry c =
     c\<lparr>result := (result c)
          (''error_msg'' \<mapsto> PStr (exhausted_msg_head @ str_nat m @ exhausted_msg_tail
             @ (case result c ''error_msg'' of Some v \<Rightarrow> py_str v | None \<Rightarrow> [])))\<rparr>"
  by (subst retry_loop.simps) simp

lemma retry_loop_success:
  "retry < m \<Longrightarrow> try_body (client retry) = Inr d \<Longrightarrow>
   retry_loop m client retry c =
     c\<lparr>result := (result c ++ d)(''crawl_status'' \<mapsto> PStr ''success'', ''error_msg'' \<mapsto> PStr []),
       calls := Suc (calls c)\<rparr>"
  by (subst retry_loop.simps) simp

lemma retry_loop_failure:
  "retry < m \<Longrightarrow> try_body (client retry) = Inl x \<Longrightarrow>
   retry_loop m client retry c =
     retry_loop m client (Suc retry)
       (c\<lparr>result := (result c)
              (''error_msg'' \<mapsto> PStr (retry_msg_head @ str_nat (retry + 1) @ retry_msg_tail @ x)),
          calls := Suc (calls c),
          sleeps := (if retry < m - 1 then Suc (sleeps c) else sleeps c)\<rparr>)"
  by (subst retry_loop.simps) simp

lemma attempt_fails_Inl: "attempt_fails r \<Longrightarrow> \<exists>x. try_body r = Inl x"
  by (cases "try_body r") (simp_all add: attempt_fails_def)

lemma not_attempt_fails_Inr: "\<not> attempt_fails r \<Longrightarrow> \<exists>d. try_body r = Inr d"
  by (cases "try_body r") (simp_all add: attempt_fails_def)

text \<open>When every remaining attempt fails, the loop makes all of them, leaves the status
  alone and ends with the message of line 132.\<close>

lemma retry_loop_all_fail:
  assumes "\<forall>k. retry \<le> k \<and> k < m \<longrightarrow> attempt_fails (client k)"
    and "result c ''error_msg'' = Some (PStr msg)"
  shows "calls (retry_loop m client retry c) = calls c + (m - retry)
         \<and> result (retry_loop m client retry c) ''crawl_status'' = result c ''crawl_status''
         \<and> result (retry_loop m client retry c) ''url'' = result c ''url''
         \<and> (\<exists>rest. result (retry_loop m client retry c) ''error_msg'' =
               Some (PStr (exhausted_msg_head @ str_nat m @ exhausted_msg_tail @ rest)))"
  using assms
proof (induction "m - retry" arbitrary: retry c msg)
  case 0
  then have "\<not> retry < m" by simp
  with "0.prems" show ?case by (simp add: retry_loop_done)
next
  case (Suc d)
  then have lt: "retry < m" by simp
  with Suc.prems obtain x where x: "try_body (client retry) = Inl x"
    using attempt_fails_Inl by force
  let ?c = "c\<lparr>result := (result c)
              (''error_msg'' \<mapsto> PStr (retry_msg_head @ str_nat (retry + 1) @ retry_msg_tail @ x)),
          calls := Suc (calls c),
          sleeps := (if retry < m - 1 then Suc (sleeps c) else sleeps c)\<rparr>"
  have step: "retry_loop m client retry c = retry_loop m client (Suc retry) ?c"
    using lt x by (rule retry_loop_failure)
  have d: "d = m - Suc retry" using Suc.hyps(2) by simp
  have rest: "\<forall>k. Suc retry \<le> k \<and> k < m \<longrightarrow> attempt_fails (client k)"
    using Suc.prems(1) by simp
  have msg: "result ?c ''error_msg'' =
               Some (PStr (retry_msg_head @ str_nat (retry + 1) @ retry_msg_tail @ x))"
    by simp
  from Suc.hyps(1) [OF d rest msg] lt show ?case
    unfolding step by simp
qed

text \<open>When the attempts before \<open>i\<close> fail and attempt \<open>i\<close> does not, the loop stops
  there.\<close>

lemma retry_loop_first_success:
  assumes "\<forall>k. retry \<le> k \<and> k < i \<longrightarrow> attempt_fails (client k)"
    and "try_body (client i) = Inr d" and "retry \<le> i" and "i < m"
  shows "calls (retry_loop m client retry c) = calls c + (i - retry) + 1
         \<and> result (retry_loop m client retry c) ''crawl_status'' = Some (PStr ''success'')
         \<and> result (retry_loop m client retry c) ''error_msg'' = Some (PStr [])"
  using assms
proof (induction "i - retry" arbitrary: retry c)
  case 0
  then have "retry = i" by simp
  with "0.prems" show ?case by (simp add: retry_loop_success)
next
  case (Suc n)
  then have lt: "retry < i" by simp
  with Suc.prems have lt': "retry < m" by simp
  from lt Suc.prems obtain x where x: "try_body (client retry) = Inl x"
    using attempt_fails_Inl by force
  have n: "n = i - Suc retry" using Suc.hyps(2) by simp
  have rest: "\<forall>k. Suc retry \<le> k \<and> k < i \<longrightarrow> attempt_fails (client k)"
    using Suc.prems(1) by simp
  have le: "Suc retry \<le> i" using lt by simp
  have step: "retry_loop m client retry c =
     retry_loop m client (Suc retry)
       (c\<lparr>result := (result c)
              (''error_msg'' \<mapsto> PStr (retry_msg_head @ str_nat (retry + 1) @ retry_msg_tail @ x)),
          calls := Suc (calls c),
          sleeps := (if retry < m - 1 then Suc (sleeps c) else sleeps c)\<rparr>)"
    using lt' x by (rule retry_loop_failure)
  from Suc.hyps(1) [OF n rest Suc.prems(2) le Suc.prems(4)] lt show ?case
    unfolding step by simp
qed

lemma exhausted_msg_head_nonempty: "exhausted_msg_head @ s \<noteq> []"
  by (simp add: exhausted_msg_head_def)

text \<open>
  What holds of the retry loop when failure is what the \<open>try\<close> body takes for one
  (the client raises, or its reply is \<open>None\<close>, blank or rejected by \<open>json.loads\<close>):
  if every attempt fails so, the client is called exactly \<open>max_retries\<close> times and
  the record has \<open>crawl_status = failed\<close> with the message of line 132; if the
  attempts before \<open>i\<close> fail so and attempt \<open>i\<close> does not, the loop returns after
  \<open>i + 1\<close> calls with \<open>crawl_status = success\<close>.
\<close>

lemma retry_loop_outcomes:
  "((\<forall>k < max_retries. attempt_fails (client k)) \<longrightarrow>
      calls (crawl_single_api max_retries now client u n) = max_retries
      \<and> result (crawl_single_api max_retries now client u n) ''crawl_status'' = Some (PStr ''failed'')
      \<and> result (crawl_single_api max_retries now client u n) ''error_msg'' \<noteq> Some (PStr [])
      \<and> (\<exists>rest. result (crawl_single_api max_retries now client u n) ''error_msg'' =
            Some (PStr (exhausted_msg_head @ str_nat max_retries @ exhausted_msg_tail @ rest))))
   \<and> (i < max_retries \<and> (\<forall>k < i. attempt_fails (client k)) \<and> \<not> attempt_fails (client i) \<longrightarrow>
      calls (crawl_single_api max_retries now client u n) = i + 1
      \<and> result (crawl_single_api max_retries now client u n) ''crawl_status'' = Some (PStr ''success'')
      \<and> result (crawl_single_api max_retries now client u n) ''error_msg'' = Some (PStr []))"
proof (intro conjI impI)
  let ?c = "\<lparr>result = [''original_row_num'' \<mapsto> PInt n, ''url'' \<mapsto> PStr u,
                  ''crawl_time'' \<mapsto> PStr now, ''crawl_status'' \<mapsto> PStr ''failed'',
                  ''error_msg'' \<mapsto> PStr []],
        calls = 0, sleeps = 0\<rparr>"
  have msg: "result ?c ''error_msg'' = Some (PStr [])" by simp
  {
    assume "\<forall>k < max_retries. attempt_fails (client k)"
    then have all: "\<forall>k. 0 \<le> k \<and> k < max_retries \<longrightarrow> attempt_fails (client k)" by simp
    note fail = retry_loop_all_fail [OF all msg]
    from fail show "calls (crawl_single_api max_retries now client u n) = max_retries"
      by (simp add: crawl_single_api_def)
    from fail show "result (crawl_single_api max_retries now client u n) ''crawl_status''
                    = Some (PStr ''failed'')"
      by (simp add: crawl_single_api_def)
    from fail show ex: "\<exists>rest. result (crawl_single_api max_retries now client u n) ''error_msg'' =
            Some (PStr (exhausted_msg_head @ str_nat max_retries @ exhausted_msg_tail @ rest))"
      by (simp add: crawl_single_api_def)
    from ex show "result (crawl_single_api max_retries now client u n) ''error_msg'' \<noteq> Some (PStr [])"
      using exhausted_msg_head_nonempty by auto
  }
  {
    assume a: "i < max_retries \<and> (\<forall>k < i. attempt_fails (client k)) \<and> \<not> attempt_fails (client i)"
    then obtain d where d: "try_body (client i) = Inr d"
      using not_attempt_fails_Inr by blast
    from a have before: "\<forall>k. 0 \<le> k \<and> k < i \<longrightarrow> attempt_fails (client k)" by simp
    from a have lt: "i < max_retries" by simp
    note ok = retry_loop_first_success [OF before d _ lt, of ?c]
    from ok show "calls (crawl_single_api max_retries now client u n) = i + 1"
      by (simp add: crawl_single_api_def)
    from ok show "result (crawl_single_api max_retries now client u n) ''crawl_status''
                    = Some (PStr ''success'')"
      by (simp add: crawl_single_api_def)
    from ok show "result (crawl_single_api max_retries now client u n) ''error_msg'' = Some (PStr [])"
      by (simp add: crawl_single_api_def)
  }
qed

section \<open>What the drain loop writes\<close>

lemma drain_one_fst:
  "fst (drain_one e t w st) = write_result_to_csv (recorded e w) t (fst st)"
  by (simp add: drain_one_def recorded_def Let_def split: sum.splits)

lemma drain_log:
  "fst st t = Some base \<Longrightarrow>
   fst (drain e t ws st) t = Some (base @ map (\<lambda>w. filtered_result (recorded e w)) ws)"
proof (induction ws arbitrary: st base)
  case Nil
  then show ?case by simp
next
  case (Cons w ws)
  have "fst (drain_one e t w st) t = Some (base @ [filtered_result (recorded e w)])"
    using Cons.prems by (simp add: drain_one_fst write_result_to_csv_def)
  from Cons.IH [OF this] show ?case by simp
qed

lemma drain_other: "q \<noteq> t \<Longrightarrow> fst (drain e t ws st) q = fst st q"
proof (induction ws arbitrary: st)
  case Nil
  show ?case by simp
next
  case (Cons w ws)
  then show ?case by (simp add: drain_one_fst write_result_to_csv_def)
qed

lemma as_completed_all:
  "\<forall>w \<in> set ws. finish e w \<noteq> None \<Longrightarrow> mset (as_completed e ws) = mset ws"
  by (simp add: as_completed_def)

lemma init_temp_csv_log: "init_temp_csv fs t t = Some (prior_log fs t)"
  by (cases "fs t") (simp_all add: init_temp_csv_def prior_log_def dom_def)

lemma init_temp_csv_other: "q \<noteq> t \<Longrightarrow> init_temp_csv fs t q = fs q"
  by (simp add: init_temp_csv_def)

lemma promote_replaces:
  "fs t = Some recs \<Longrightarrow> t \<noteq> out \<Longrightarrow> promote fs t out = Inr ((fs(t := None))(out \<mapsto> recs))"
  by (auto simp: promote_def os_remove_def os_rename_def dom_def fun_upd_twist)

text \<open>When the temp path is the output path, \<open>os.remove\<close> deletes the log and
  \<open>os.rename\<close> then raises: the run stops with the log gone.\<close>

lemma promote_same_path:
  "fs t = Some recs \<Longrightarrow> promote fs t t = Inl (Uncaught ''FileNotFoundError'', fs(t := None))"
  by (simp add: promote_def os_remove_def os_rename_def dom_def)

lemma batch_crawl_same_path:
  assumes load: "load_urls_from_csv fs input_csv path = Inr all_urls"
    and pending: "all_urls \<noteq> []"
    and fin: "\<forall>w \<in> set all_urls. finish e w \<noteq> None"
  shows "\<exists>fs'. batch_crawl_large_scale e fs input_csv path path
                 = Stopped (Uncaught ''FileNotFoundError'') fs' \<and> fs' path = None"
proof -
  let ?st = "drain e path (as_completed e all_urls)
               (init_temp_csv fs path, \<lparr>completed_count = 0, success_count = 0, fail_count = 0\<rparr>)"
  have "fst ?st path = Some (prior_log fs path
          @ map (\<lambda>w. filtered_result (recorded e w)) (as_completed e all_urls))"
    by (rule drain_log) (simp add: init_temp_csv_log)
  then have "promote (fst ?st) path path
               = Inl (Uncaught ''FileNotFoundError'', (fst ?st)(path := None))"
    by (rule promote_same_path)
  then have "batch_crawl_large_scale e fs input_csv path path
          = Stopped (Uncaught ''FileNotFoundError'') ((fst ?st)(path := None))"
    using load pending fin by (simp add: batch_crawl_large_scale_def Let_def)
  then show ?thesis by simp
qed

text \<open>A run with something pending, whose tasks all return, ends with the prior log and
  one new record per pending work item at the output path.\<close>

lemma batch_crawl_finishes:
  assumes load: "load_urls_from_csv fs input_csv temp_csv = Inr all_urls"
    and pending: "all_urls \<noteq> []"
    and fin: "\<forall>w \<in> set all_urls. finish e w \<noteq> None"
    and paths: "temp_csv \<noteq> output_csv"
  shows "\<exists>fs' p. batch_crawl_large_scale e fs input_csv output_csv temp_csv = Finished fs' p
           \<and> fs' output_csv =
               Some (prior_log fs temp_csv
                     @ map (\<lambda>w. filtered_result (recorded e w)) (as_completed e all_urls))
           \<and> fs' temp_csv = None
           \<and> (\<forall>q. q \<noteq> output_csv \<and> q \<noteq> temp_csv \<longrightarrow> fs' q = fs q)"
proof -
  let ?st0 = "(init_temp_csv fs temp_csv, \<lparr>completed_count = 0, success_count = 0, fail_count = 0\<rparr>)"
  let ?st = "drain e temp_csv (as_completed e all_urls) ?st0"
  let ?log = "prior_log fs temp_csv
                @ map (\<lambda>w. filtered_result (recorded e w)) (as_completed e all_urls)"
  have log: "fst ?st temp_csv = Some ?log"
    by (rule drain_log) (simp add: init_temp_csv_log)
  have other: "\<And>q. q \<noteq> temp_csv \<Longrightarrow> fst ?st q = fs q"
    by (simp add: drain_other init_temp_csv_other)
  have prom: "promote (fst ?st) temp_csv output_csv
                = Inr (((fst ?st)(temp_csv := None))(output_csv \<mapsto> ?log))"
    using log paths by (rule promote_replaces)
  have run: "batch_crawl_large_scale e fs input_csv output_csv temp_csv
               = Finished (((fst ?st)(temp_csv := None))(output_csv \<mapsto> ?log)) (snd ?st)"
    using load pending fin prom by (simp add: batch_crawl_large_scale_def Let_def)
  show ?thesis
    unfolding run using paths other by auto
qed

text \<open>A task that never returns is never yielded by \<open>as_completed\<close>: the run
  waits for ever, with nothing promoted.\<close>

lemma batch_crawl_blocks:
  assumes "load_urls_from_csv fs input_csv temp_csv = Inr all_urls"
    and "w \<in> set all_urls" and "finish e w = None"
  shows "\<exists>fs' p. batch_crawl_large_scale e fs input_csv output_csv temp_csv = Blocked fs' p"
proof -
  from assms(2) have "all_urls \<noteq> []" by auto
  moreover from assms(2,3) have "\<exists>w \<in> set all_urls. finish e w = None" by blast
  ultimately show ?thesis
    using assms(1) by (simp add: batch_crawl_large_scale_def Let_def)
qed

text \<open>Whatever the attempts do, the loop either ends in \<open>success\<close> or leaves \<open>url\<close>
  and \<open>crawl_status\<close> as they were.\<close>

lemma retry_loop_url:
  "result (retry_loop m client retry c) ''crawl_status'' = Some (PStr ''success'')
   \<or> (result (retry_loop m client retry c) ''url'' = result c ''url''
      \<and> result (retry_loop m client retry c) ''crawl_status'' = result c ''crawl_status'')"
proof (induction "m - retry" arbitrary: retry c)
  case 0
  then have "\<not> retry < m" by simp
  then show ?case by (simp add: retry_loop_done)
next
  case (Suc d)
  then have lt: "retry < m" by simp
  show ?case
  proof (cases "try_body (client retry)")
    case (Inr api_data)
    with lt show ?thesis by (simp add: retry_loop_success)
  next
    case (Inl x)
    let ?c = "c\<lparr>result := (result c)
              (''error_msg'' \<mapsto> PStr (retry_msg_head @ str_nat (retry + 1) @ retry_msg_tail @ x)),
          calls := Suc (calls c),
          sleeps := (if retry < m - 1 then Suc (sleeps c) else sleeps c)\<rparr>"
    have step: "retry_loop m client retry c = retry_loop m client (Suc retry) ?c"
      using lt Inl by (rule retry_loop_failure)
    have d: "d = m - Suc retry" using Suc.hyps(2) by simp
    from Suc.hyps(1) [OF d, of ?c] show ?thesis
      unfolding step by simp
  qed
qed

lemma recorded_url:
  "recorded e w ''crawl_status'' = Some (PStr ''success'')
   \<or> (recorded e w ''url'' = Some (PStr (url w))
      \<and> recorded e w ''crawl_status'' = Some (PStr ''failed''))"
proof (cases "fault e w")
  case None
  then have "recorded e w = result (task e w)"
    by (simp add: recorded_def future_result_def)
  then show ?thesis
    using retry_loop_url [of MAX_RETRIES "\<lambda>k. VisitGPT4o_call (page e w k) (api e w k)" 0
        "\<lparr>result = [''original_row_num'' \<mapsto> PInt (original_row_num w), ''url'' \<mapsto> PStr (url w),
                  ''crawl_time'' \<mapsto> PStr (task_clock e w), ''crawl_status'' \<mapsto> PStr ''failed'',
                  ''error_msg'' \<mapsto> PStr []],
        calls = 0, sleeps = 0\<rparr>"]
    by (simp add: task_def crawl_single_api_def)
next
  case (Some x)
  then show ?thesis by (simp add: recorded_def future_result_def)
qed

lemma DictReader_row_full:
  "DictReader_row ks (map f ks) key = (if key \<in> set ks then Some (Some (f key)) else None)"
proof -
  have "zip (rev ks) (rev (map (\<lambda>k. Some (f k)) ks)) = rev (zip ks (map (\<lambda>k. Some (f k)) ks))"
    by (rule zip_rev) simp
  then have "rev (zip ks (map (\<lambda>k. Some (f k)) ks)) = zip (rev ks) (map (\<lambda>k. Some (f k)) (rev ks))"
    by (simp add: rev_map)
  then have "DictReader_row ks (map f ks) = map_of (zip (rev ks) (map (\<lambda>k. Some (f k)) (rev ks)))"
    by (simp add: DictReader_row_def comp_def)
  then show ?thesis
    by (simp add: map_of_zip_map)
qed

lemma column_filtered_result:
  "key \<in> set get_csv_columns \<Longrightarrow>
   column key (filtered_result r) = (case r key of None \<Rightarrow> [] | Some v \<Rightarrow> csv_cell v)"
  unfolding column_def cell_def filtered_result_def
  by (simp add: DictReader_row_full split: option.splits)

lemma length_filtered_result: "length (filtered_result r) = 14"
  by (simp add: filtered_result_def get_csv_columns_def)

lemma filtered_result_field_text: "filtered_result r = map (field_text r) get_csv_columns"
  unfolding filtered_result_def field_text_def
  by (intro map_cong refl) (simp split: option.splits)

section \<open>The claims about the durable log\<close>

text \<open>
  Claim C8. \<open>init_temp_csv\<close> creates the log file, holding the header row of the 14
  fixed columns and nothing else, when no file exists at the path; when a file exists
  there, the file system is returned unchanged. Either way a file exists afterwards and
  no other path is touched.
\<close>

theorem init_temp_csv_only_when_missing:
  "(temp_file \<notin> dom fs \<longrightarrow> init_temp_csv fs temp_file = fs(temp_file \<mapsto> [get_csv_columns]))
   \<and> (temp_file \<in> dom fs \<longrightarrow> init_temp_csv fs temp_file = fs)
   \<and> (init_temp_csv fs temp_file temp_file = Some [get_csv_columns]) = (temp_file \<notin> dom fs
        \<or> fs temp_file = Some [get_csv_columns])
   \<and> length get_csv_columns = 14"
  by (auto simp: init_temp_csv_def get_csv_columns_def)

theorem init_temp_csv_only_when_missing_witness:
  "init_temp_csv fresh_fs ''tmp'' = fresh_fs(''tmp'' \<mapsto> [get_csv_columns])
   \<and> init_temp_csv retry_fs ''tmp'' = retry_fs"
proof -
  have "''tmp'' \<notin> dom fresh_fs" by (simp add: fresh_fs_def)
  moreover have "''tmp'' \<in> dom retry_fs" by (simp add: retry_fs_def)
  ultimately show ?thesis
    using init_temp_csv_only_when_missing [of "''tmp''" fresh_fs]
      init_temp_csv_only_when_missing [of "''tmp''" retry_fs]
    by blast
qed

text \<open>
  Claim C7. The record \<open>write_result_to_csv\<close> appends to the log has exactly 14 cells,
  one for each column of the fixed schema in its order; the cell of a column is the
  text of the result's value for that key, and the empty string when the result has no
  such key; a key outside the schema changes nothing in the record. The drain loop
  writes every record, for a task's result as for an \<open>error_result\<close>, through this
  function.
\<close>

theorem write_result_to_csv_row:
  "write_result_to_csv r csv_file fs csv_file =
     Some ((case fs csv_file of None \<Rightarrow> [] | Some recs \<Rightarrow> recs) @ [filtered_result r])
   \<and> length (filtered_result r) = 14
   \<and> zip get_csv_columns (filtered_result r) =
       [(''original_row_num'', field_text r ''original_row_num''), (''url'', field_text r ''url''),
        (''crawl_time'', field_text r ''crawl_time''),
        (''crawl_status'', field_text r ''crawl_status''),
        (''error_msg'', field_text r ''error_msg''), (''api'', field_text r ''api''),
        (''package'', field_text r ''package''), (''language'', field_text r ''language''),
        (''deprecated_in'', field_text r ''deprecated_in''),
        (''removed_in'', field_text r ''removed_in''),
        (''replaced_by'', field_text r ''replaced_by''),
        (''change_type'', field_text r ''change_type''), (''reason'', field_text r ''reason''),
        (''source'', field_text r ''source'')]
   \<and> (r key = None \<longrightarrow> field_text r key = [])
   \<and> (key \<notin> set get_csv_columns \<longrightarrow> filtered_result (r(key \<mapsto> v)) = filtered_result r)
   \<and> fst (drain_one e csv_file w (fs, p)) = write_result_to_csv (recorded e w) csv_file fs"
proof (intro conjI impI)
  show "write_result_to_csv r csv_file fs csv_file =
     Some ((case fs csv_file of None \<Rightarrow> [] | Some recs \<Rightarrow> recs) @ [filtered_result r])"
    by (simp add: write_result_to_csv_def)
  show "length (filtered_result r) = 14"
    by (rule length_filtered_result)
  show "zip get_csv_columns (filtered_result r) =
       [(''original_row_num'', field_text r ''original_row_num''), (''url'', field_text r ''url''),
        (''crawl_time'', field_text r ''crawl_time''),
        (''crawl_status'', field_text r ''crawl_status''),
        (''error_msg'', field_text r ''error_msg''), (''api'', field_text r ''api''),
        (''package'', field_text r ''package''), (''language'', field_text r ''language''),
        (''deprecated_in'', field_text r ''deprecated_in''),
        (''removed_in'', field_text r ''removed_in''),
        (''replaced_by'', field_text r ''replaced_by''),
        (''change_type'', field_text r ''change_type''), (''reason'', field_text r ''reason''),
        (''source'', field_text r ''source'')]"
    unfolding filtered_result_field_text by (simp add: get_csv_columns_def)
  show "field_text r key = []" if "r key = None"
    using that by (simp add: field_text_def)
  show "filtered_result (r(key \<mapsto> v)) = filtered_result r" if "key \<notin> set get_csv_columns"
  proof -
    have "\<forall>k \<in> set get_csv_columns. (r(key \<mapsto> v)) k = r k"
      using that by auto
    then show ?thesis
      unfolding filtered_result_def by (intro map_cong) simp_all
  qed
  show "fst (drain_one e csv_file w (fs, p)) = write_result_to_csv (recorded e w) csv_file fs"
    by (simp add: drain_one_fst)
qed

theorem write_result_to_csv_row_witness:
  "filtered_result ([''url'' \<mapsto> PStr ''u''](''error'' \<mapsto> PStr ''x'')) = filtered_result [''url'' \<mapsto> PStr ''u'']
   \<and> field_text [''url'' \<mapsto> PStr ''u''] ''api'' = []"
proof -
  have "''error'' \<notin> set get_csv_columns" by (simp add: get_csv_columns_def)
  moreover have "[''url'' \<mapsto> PStr ''u''] ''api'' = None" by simp
  ultimately show ?thesis
    using write_result_to_csv_row [of "[''url'' \<mapsto> PStr ''u'']" _ _ "''error''" "PStr ''x''"]
      write_result_to_csv_row [of "[''url'' \<mapsto> PStr ''u'']" _ _ "''api''"]
    by blast
qed

section \<open>The claims about the work-item source\<close>

theorem load_urls_from_csv_pending_witness:
  "load_urls_from_csv resume_fs ''in'' ''tmp''
     = Inr [\<lparr>url = ''a'', original_row_num = 2\<rparr>, \<lparr>url = ''c'', original_row_num = 4\<rparr>]
   \<and> [\<lparr>url = ''a'', original_row_num = 2\<rparr>, \<lparr>url = ''c'', original_row_num = 4\<rparr>]
     = filter (\<lambda>w. url w \<notin> completedUrls resume_fs ''tmp'') (manifestUrls resume_fs ''in'')
   \<and> ''b'' \<in> completedUrls resume_fs ''tmp''"
proof -
  have ran: "load_urls_from_csv resume_fs ''in'' ''tmp''
     = Inr [\<lparr>url = ''a'', original_row_num = 2\<rparr>, \<lparr>url = ''c'', original_row_num = 4\<rparr>]"
    unfolding resume_fs_def by code_simp
  have manifest: "manifestUrls resume_fs ''in''
     = [\<lparr>url = ''a'', original_row_num = 2\<rparr>, \<lparr>url = ''b'', original_row_num = 3\<rparr>,
        \<lparr>url = ''c'', original_row_num = 4\<rparr>]"
    unfolding resume_fs_def by code_simp
  note spec = load_urls_from_csv_pending [OF ran]
  from spec have kept: "[\<lparr>url = ''a'', original_row_num = 2\<rparr>, \<lparr>url = ''c'', original_row_num = 4\<rparr>]
     = filter (\<lambda>w. url w \<notin> completedUrls resume_fs ''tmp'') (manifestUrls resume_fs ''in'')"
    by (rule conjunct1)
  from spec have skipped: "\<forall>w \<in> set (manifestUrls resume_fs ''in'').
      (w \<notin> set [\<lparr>url = ''a'', original_row_num = 2\<rparr>, \<lparr>url = ''c'', original_row_num = 4\<rparr>])
        = (url w \<in> completedUrls resume_fs ''tmp'')"
    by (rule conjunct1 [OF conjunct2])
  have "\<lparr>url = ''b'', original_row_num = 3\<rparr> \<in> set (manifestUrls resume_fs ''in'')"
    unfolding manifest by simp
  from bspec [OF skipped this] have "url \<lparr>url = ''b'', original_row_num = 3\<rparr> \<in> completedUrls resume_fs ''tmp''"
    by simp
  then have "''b'' \<in> completedUrls resume_fs ''tmp''"
    by simp
  with ran kept show ?thesis
    by (intro conjI)
qed

text \<open>
  Claim C10. When two different manifest rows carry the same non-empty url and that url
  is not among the completed urls, \<open>load_urls_from_csv\<close> returns a work item for each
  of the two rows, with different row numbers: the work items for the url are all its
  manifest occurrences. A run that drains every task then appends one record per work
  item to the log.
\<close>

theorem load_urls_from_csv_keeps_duplicates:
  assumes load: "load_urls_from_csv fs input_csv temp_csv = Inr all_urls"
    and rows: "w1 \<in> set (manifestUrls fs input_csv)" "w2 \<in> set (manifestUrls fs input_csv)"
      "w1 \<noteq> w2" "url w1 = url w2"
    and fresh: "url w1 \<notin> completedUrls fs temp_csv"
    and fin: "\<forall>w \<in> set all_urls. finish e w \<noteq> None"
    and paths: "temp_csv \<noteq> output_csv"
  shows "w1 \<in> set all_urls \<and> w2 \<in> set all_urls
         \<and> original_row_num w1 \<noteq> original_row_num w2
         \<and> filter (\<lambda>w. url w = url w1) all_urls
             = filter (\<lambda>w. url w = url w1) (manifestUrls fs input_csv)
         \<and> finished (batch_crawl_large_scale e fs input_csv output_csv temp_csv)
         \<and> files_after (batch_crawl_large_scale e fs input_csv output_csv temp_csv) output_csv
             = Some (prior_log fs temp_csv
                     @ map (\<lambda>w. filtered_result (recorded e w)) (as_completed e all_urls))
         \<and> mset (as_completed e all_urls) = mset all_urls"
proof -
  have eq: "all_urls = filter (\<lambda>w. url w \<notin> completedUrls fs temp_csv) (manifestUrls fs input_csv)"
    using load by (rule load_urls_from_csv_Inr)
  have in1: "w1 \<in> set all_urls" and in2: "w2 \<in> set all_urls"
    using rows fresh by (subst eq, simp)+
  have "original_row_num w1 \<noteq> original_row_num w2"
    using rows by auto
  moreover have "filter (\<lambda>w. url w = url w1) all_urls
             = filter (\<lambda>w. url w = url w1) (manifestUrls fs input_csv)"
    using fresh by (subst eq) (auto intro: filter_cong)
  moreover from in1 have "all_urls \<noteq> []" by auto
  from batch_crawl_finishes [OF load this fin paths]
  have "finished (batch_crawl_large_scale e fs input_csv output_csv temp_csv)
        \<and> files_after (batch_crawl_large_scale e fs input_csv output_csv temp_csv) output_csv
             = Some (prior_log fs temp_csv
                     @ map (\<lambda>w. filtered_result (recorded e w)) (as_completed e all_urls))"
    by auto
  moreover have "mset (as_completed e all_urls) = mset all_urls"
    using fin by (rule as_completed_all)
  ultimately show ?thesis using in1 in2 by blast
qed

theorem load_urls_from_csv_keeps_duplicates_witness:
  "load_urls_from_csv dup_fs ''in'' ''tmp''
     = Inr [\<lparr>url = ''a'', original_row_num = 2\<rparr>, \<lparr>url = ''a'', original_row_num = 3\<rparr>]
   \<and> finished (batch_crawl_large_scale quick_env dup_fs ''in'' ''out'' ''tmp'')
   \<and> files_after (batch_crawl_large_scale quick_env dup_fs ''in'' ''out'' ''tmp'') ''out''
     = Some (prior_log dup_fs ''tmp''
             @ map (\<lambda>w. filtered_result (recorded quick_env w))
                 (as_completed quick_env
                    [\<lparr>url = ''a'', original_row_num = 2\<rparr>, \<lparr>url = ''a'', original_row_num = 3\<rparr>]))"
proof -
  let ?w1 = "\<lparr>url = ''a'', original_row_num = 2\<rparr>" and ?w2 = "\<lparr>url = ''a'', original_row_num = 3\<rparr>"
  have ran: "load_urls_from_csv dup_fs ''in'' ''tmp'' = Inr [?w1, ?w2]"
    unfolding dup_fs_def by code_simp
  have manifest: "manifestUrls dup_fs ''in'' = [?w1, ?w2]"
    unfolding dup_fs_def by code_simp
  have in1: "?w1 \<in> set (manifestUrls dup_fs ''in'')" and in2: "?w2 \<in> set (manifestUrls dup_fs ''in'')"
    by (simp_all add: manifest)
  have diff: "?w1 \<noteq> ?w2" and same: "url ?w1 = url ?w2" by simp_all
  have fresh: "url ?w1 \<notin> completedUrls dup_fs ''tmp''"
    by (simp add: completedUrls_def dup_fs_def)
  have fin: "\<forall>w \<in> set [?w1, ?w2]. finish quick_env w \<noteq> None"
    by (simp add: quick_env_def)
  have paths: "''tmp'' \<noteq> ''out''" by simp
  from load_urls_from_csv_keeps_duplicates [OF ran in1 in2 diff same fresh fin paths] ran
  show ?thesis by blast
qed

section \<open>The claims about the retry wrapper\<close>

text \<open>
  Claim C3, at the input where the code departs from it. When the page cannot be read
  (\<open>read_webpage\<close> caught a timeout or a request error and returned the empty string),
  \<open>VisitGPT4o.call\<close> returns the JSON text of \<open>{"error": ...}\<close>;
  \<open>crawl_single_api\<close> parses it, merges it and returns after this one call with
  \<open>crawl_status = success\<close>. The \<open>error\<close> key is not a column, so the record written
  for it has an empty payload.
\<close>

theorem page_read_failure_recorded_as_success:
  "result (crawl_single_api MAX_RETRIES now (\<lambda>k. VisitGPT4o_call FetchTimeout (a k)) u n)
     ''crawl_status'' = Some (PStr ''success'')
   \<and> calls (crawl_single_api MAX_RETRIES now (\<lambda>k. VisitGPT4o_call FetchTimeout (a k)) u n) = 1
   \<and> result (crawl_single_api MAX_RETRIES now
        (\<lambda>k. VisitGPT4o_call (FetchRequestException x) (a k)) u n)
     ''crawl_status'' = Some (PStr ''success'')
   \<and> filtered_result (result (crawl_single_api MAX_RETRIES now
        (\<lambda>k. VisitGPT4o_call FetchTimeout (a k)) u n))
     = [str_int n, u, now, ''success'', [], [], [], [], [], [], [], [], [], []]"
proof -
  have lt: "0 < MAX_RETRIES" by (simp add: MAX_RETRIES_def)
  have timeout: "try_body (VisitGPT4o_call FetchTimeout (a 0))
                   = Inr [''error'' \<mapsto> PStr cannot_read_page]"
    by (simp add: VisitGPT4o_call_def)
  have request: "try_body (VisitGPT4o_call (FetchRequestException x) (a 0))
                   = Inr [''error'' \<mapsto> PStr cannot_read_page]"
    by (simp add: VisitGPT4o_call_def)
  have run: "crawl_single_api MAX_RETRIES now (\<lambda>k. VisitGPT4o_call FetchTimeout (a k)) u n =
     \<lparr>result = ([''original_row_num'' \<mapsto> PInt n, ''url'' \<mapsto> PStr u,
                  ''crawl_time'' \<mapsto> PStr now, ''crawl_status'' \<mapsto> PStr ''failed'',
                  ''error_msg'' \<mapsto> PStr []] ++ [''error'' \<mapsto> PStr cannot_read_page])
                 (''crawl_status'' \<mapsto> PStr ''success'', ''error_msg'' \<mapsto> PStr []),
      calls = Suc 0, sleeps = 0\<rparr>"
    unfolding crawl_single_api_def
    by (subst retry_loop_success [where d = "[''error'' \<mapsto> PStr cannot_read_page]"])
       (simp_all add: lt timeout)
  have run': "crawl_single_api MAX_RETRIES now
                (\<lambda>k. VisitGPT4o_call (FetchRequestException x) (a k)) u n =
     \<lparr>result = ([''original_row_num'' \<mapsto> PInt n, ''url'' \<mapsto> PStr u,
                  ''crawl_time'' \<mapsto> PStr now, ''crawl_status'' \<mapsto> PStr ''failed'',
                  ''error_msg'' \<mapsto> PStr []] ++ [''error'' \<mapsto> PStr cannot_read_page])
                 (''crawl_status'' \<mapsto> PStr ''success'', ''error_msg'' \<mapsto> PStr []),
      calls = Suc 0, sleeps = 0\<rparr>"
    unfolding crawl_single_api_def
    by (subst retry_loop_success [where d = "[''error'' \<mapsto> PStr cannot_read_page]"])
       (simp_all add: lt request)
  show ?thesis
    unfolding run run' by (simp add: filtered_result_def get_csv_columns_def)
qed

text \<open>
  Claim C4, at the input where the code departs from it. The client fails on every
  attempt because the page cannot be read. Whatever the number of retries allowed, one
  or more, \<open>crawl_single_api\<close> calls the client once, not \<open>max_retries\<close> times, and
  returns \<open>crawl_status = success\<close> with an empty \<open>error_msg\<close>; with the
  \<open>MAX_RETRIES\<close> of the source the number of calls differs from \<open>MAX_RETRIES\<close>.
\<close>

theorem unreadable_page_client_called_once:
  "calls (crawl_single_api (Suc m) now
            (\<lambda>k. VisitGPT4o_call (FetchRequestException x) (a k)) u n) = 1
   \<and> result (crawl_single_api (Suc m) now
            (\<lambda>k. VisitGPT4o_call (FetchRequestException x) (a k)) u n) ''crawl_status''
       = Some (PStr ''success'')
   \<and> result (crawl_single_api (Suc m) now
            (\<lambda>k. VisitGPT4o_call (FetchRequestException x) (a k)) u n) ''error_msg''
       = Some (PStr [])
   \<and> calls (crawl_single_api MAX_RETRIES now
            (\<lambda>k. VisitGPT4o_call (FetchRequestException x) (a k)) u n) \<noteq> MAX_RETRIES"
proof -
  have reply: "try_body (VisitGPT4o_call (FetchRequestException x) (a 0))
                 = Inr [''error'' \<mapsto> PStr cannot_read_page]"
    by (simp add: VisitGPT4o_call_def)
  have run: "crawl_single_api (Suc m) now
               (\<lambda>k. VisitGPT4o_call (FetchRequestException x) (a k)) u n =
     \<lparr>result = ([''original_row_num'' \<mapsto> PInt n, ''url'' \<mapsto> PStr u,
                  ''crawl_time'' \<mapsto> PStr now, ''crawl_status'' \<mapsto> PStr ''failed'',
                  ''error_msg'' \<mapsto> PStr []] ++ [''error'' \<mapsto> PStr cannot_read_page])
                 (''crawl_status'' \<mapsto> PStr ''success'', ''error_msg'' \<mapsto> PStr []),
      calls = Suc 0, sleeps = 0\<rparr>" for m
    unfolding crawl_single_api_def
    by (subst retry_loop_success [where d = "[''error'' \<mapsto> PStr cannot_read_page]"])
       (simp_all add: reply)
  have two: "MAX_RETRIES = Suc 1" by (simp add: MAX_RETRIES_def)
  show ?thesis
    unfolding two run by simp
qed

section \<open>The claims about the driver\<close>

text \<open>
  Claim C1 fails as stated. The manifest lists \<open>u\<close> once and the durable log holds a
  failed row for \<open>u\<close>: the run crawls \<open>u\<close> again, appends the new row after the old
  one and promotes the log, so the final artifact has two rows for \<open>u\<close>.
\<close>

theorem final_artifact_repeats_url_counterexample:
  "load_urls_from_csv retry_fs ''in'' ''tmp'' = Inr [\<lparr>url = ''u'', original_row_num = 2\<rparr>]
   \<and> finished (batch_crawl_large_scale quick_env retry_fs ''in'' ''out'' ''tmp'')
   \<and> files_after (batch_crawl_large_scale quick_env retry_fs ''in'' ''out'' ''tmp'') ''out''
     = Some [get_csv_columns,
             [''2'', ''u'', ''t0'', ''failed'', ''boom'', [], [], [], [], [], [], [], [], []],
             [''2'', ''u'', ''t1'', ''success'', [], ''f'', [], [], [], [], [], [], [], []]]
   \<and> map (column ''url'')
         [[''2'', ''u'', ''t0'', ''failed'', ''boom'', [], [], [], [], [], [], [], [], []],
          [''2'', ''u'', ''t1'', ''success'', [], ''f'', [], [], [], [], [], [], [], []]]
     = [''u'', ''u'']"
proof (intro conjI)
  show "load_urls_from_csv retry_fs ''in'' ''tmp'' = Inr [\<lparr>url = ''u'', original_row_num = 2\<rparr>]"
    unfolding retry_fs_def by code_simp
  show "finished (batch_crawl_large_scale quick_env retry_fs ''in'' ''out'' ''tmp'')"
    unfolding retry_fs_def quick_env_def by code_simp
  show "files_after (batch_crawl_large_scale quick_env retry_fs ''in'' ''out'' ''tmp'') ''out''
     = Some [get_csv_columns,
             [''2'', ''u'', ''t0'', ''failed'', ''boom'', [], [], [], [], [], [], [], [], []],
             [''2'', ''u'', ''t1'', ''success'', [], ''f'', [], [], [], [], [], [], [], []]]"
    unfolding retry_fs_def quick_env_def by code_simp
  show "map (column ''url'')
         [[''2'', ''u'', ''t0'', ''failed'', ''boom'', [], [], [], [], [], [], [], [], []],
          [''2'', ''u'', ''t1'', ''success'', [], ''f'', [], [], [], [], [], [], [], []]]
     = [''u'', ''u'']"
    by code_simp
qed

text \<open>
  Claim C1, amended. A run with something pending, all of whose tasks return, ends with
  the output artifact made of the prior durable log (its header alone when there was
  none) followed by one new record for every pending work item, in completion order;
  the pending work items are the manifest entries whose url is not recorded with
  \<open>crawl_status = success\<close>. A new record carries its work item's url with status
  \<open>failed\<close>, or has status \<open>success\<close>. The rows of the prior log, failed ones
  included, stay in the artifact, and the temp file is gone.
\<close>

theorem final_artifact_is_prior_log_and_pending:
  assumes load: "load_urls_from_csv fs input_csv temp_csv = Inr all_urls"
    and pending: "all_urls \<noteq> []"
    and fin: "\<forall>w \<in> set all_urls. finish e w \<noteq> None"
    and paths: "temp_csv \<noteq> output_csv"
  shows "finished (batch_crawl_large_scale e fs input_csv output_csv temp_csv)
         \<and> files_after (batch_crawl_large_scale e fs input_csv output_csv temp_csv) output_csv
           = Some (prior_log fs temp_csv
                   @ map (\<lambda>w. filtered_result (recorded e w)) (as_completed e all_urls))
         \<and> files_after (batch_crawl_large_scale e fs input_csv output_csv temp_csv) temp_csv = None
         \<and> mset (as_completed e all_urls)
             = mset (filter (\<lambda>w. url w \<notin> completedUrls fs temp_csv) (manifestUrls fs input_csv))
         \<and> (\<forall>w. column ''crawl_status'' (filtered_result (recorded e w)) = ''success''
                \<or> (column ''url'' (filtered_result (recorded e w)) = url w
                    \<and> column ''crawl_status'' (filtered_result (recorded e w)) = ''failed''))"
proof (intro conjI allI)
  from batch_crawl_finishes [OF load pending fin paths]
  obtain fs' p where run: "batch_crawl_large_scale e fs input_csv output_csv temp_csv = Finished fs' p"
    and out: "fs' output_csv =
               Some (prior_log fs temp_csv
                     @ map (\<lambda>w. filtered_result (recorded e w)) (as_completed e all_urls))"
    and tmp: "fs' temp_csv = None"
    by blast
  show "finished (batch_crawl_large_scale e fs input_csv output_csv temp_csv)"
    by (simp add: run)
  show "files_after (batch_crawl_large_scale e fs input_csv output_csv temp_csv) output_csv
           = Some (prior_log fs temp_csv
                   @ map (\<lambda>w. filtered_result (recorded e w)) (as_completed e all_urls))"
    by (simp add: run out)
  show "files_after (batch_crawl_large_scale e fs input_csv output_csv temp_csv) temp_csv = None"
    by (simp add: run tmp)
  have "mset (as_completed e all_urls) = mset all_urls"
    using fin by (rule as_completed_all)
  then show "mset (as_completed e all_urls)
             = mset (filter (\<lambda>w. url w \<notin> completedUrls fs temp_csv) (manifestUrls fs input_csv))"
    using load_urls_from_csv_Inr [OF load] by simp
next
  fix w
  have cols: "''crawl_status'' \<in> set get_csv_columns" "''url'' \<in> set get_csv_columns"
    by (simp_all add: get_csv_columns_def)
  from recorded_url [of e w]
  show "column ''crawl_status'' (filtered_result (recorded e w)) = ''success''
        \<or> (column ''url'' (filtered_result (recorded e w)) = url w
            \<and> column ''crawl_status'' (filtered_result (recorded e w)) = ''failed'')"
    by (auto simp: column_filtered_result [OF cols(1)] column_filtered_result [OF cols(2)])
qed

theorem final_artifact_is_prior_log_and_pending_witness:
  "load_urls_from_csv retry_fs ''in'' ''tmp'' = Inr [\<lparr>url = ''u'', original_row_num = 2\<rparr>]
   \<and> finished (batch_crawl_large_scale quick_env retry_fs ''in'' ''out'' ''tmp'')
   \<and> files_after (batch_crawl_large_scale quick_env retry_fs ''in'' ''out'' ''tmp'') ''out''
     = Some (prior_log retry_fs ''tmp''
             @ map (\<lambda>w. filtered_result (recorded quick_env w))
                 (as_completed quick_env [\<lparr>url = ''u'', original_row_num = 2\<rparr>]))
   \<and> files_after (batch_crawl_large_scale quick_env retry_fs ''in'' ''out'' ''tmp'') ''tmp'' = None"
proof -
  have ran: "load_urls_from_csv retry_fs ''in'' ''tmp'' = Inr [\<lparr>url = ''u'', original_row_num = 2\<rparr>]"
    unfolding retry_fs_def by code_simp
  have pending: "[\<lparr>url = ''u'', original_row_num = 2\<rparr>] \<noteq> []" by simp
  have fin: "\<forall>w \<in> set [\<lparr>url = ''u'', original_row_num = 2\<rparr>]. finish quick_env w \<noteq> None"
    by (simp add: quick_env_def)
  have paths: "''tmp'' \<noteq> ''out''" by simp
  from final_artifact_is_prior_log_and_pending [OF ran pending fin paths] ran
  show ?thesis by blast
qed

text \<open>
  Claim C5 fails as stated. Nothing is pending, the durable log exists, and a file of an
  older run exists at the output path: the guard of line 154 is false, so the driver
  exits with the old file still at the output path and the log still at the temp path.
\<close>

theorem nothing_pending_keeps_old_output_counterexample:
  "load_urls_from_csv done_fs ''in'' ''tmp'' = Inr []
   \<and> batch_crawl_large_scale quick_env done_fs ''in'' ''out'' ''tmp'' = Stopped (SysExit 0) done_fs
   \<and> done_fs ''out'' = Some [[''old'']]
   \<and> done_fs ''tmp''
     = Some [get_csv_columns,
             [''2'', ''a'', ''t0'', ''success'', [], ''f'', [], [], [], [], [], [], [], []]]"
proof -
  have ran: "load_urls_from_csv done_fs ''in'' ''tmp'' = Inr []"
    unfolding done_fs_def by code_simp
  have "''tmp'' \<in> dom done_fs" and "''out'' \<in> dom done_fs"
    by (simp_all add: done_fs_def)
  then have "batch_crawl_large_scale quick_env done_fs ''in'' ''out'' ''tmp''
               = Stopped (SysExit 0) done_fs"
    by (simp add: batch_crawl_large_scale_def ran)
  with ran show ?thesis
    by (simp add: done_fs_def)
qed

text \<open>
  Claim C5, amended. When nothing is pending and the durable log exists, the driver
  exits with status 0 whatever the environment, without draining any task: when no
  file exists at the output path the log is moved there; when a file exists at the
  output path, the output file and the log both stay as they are.
\<close>

theorem nothing_pending_exit:
  assumes "load_urls_from_csv fs input_csv temp_csv = Inr []"
    and "fs temp_csv = Some recs"
  shows "(output_csv \<notin> dom fs \<longrightarrow>
            batch_crawl_large_scale e fs input_csv output_csv temp_csv
              = Stopped (SysExit 0) ((fs(temp_csv := None))(output_csv \<mapsto> recs)))
         \<and> (output_csv \<in> dom fs \<longrightarrow>
            batch_crawl_large_scale e fs input_csv output_csv temp_csv = Stopped (SysExit 0) fs)"
  using assms
  by (auto simp: batch_crawl_large_scale_def os_rename_def)

theorem nothing_pending_exit_witness:
  "batch_crawl_large_scale quick_env done_fs ''in'' ''out'' ''tmp'' = Stopped (SysExit 0) done_fs
   \<and> batch_crawl_large_scale quick_env (done_fs(''out'' := None)) ''in'' ''out'' ''tmp''
     = Stopped (SysExit 0)
         (((done_fs(''out'' := None))(''tmp'' := None))
            (''out'' \<mapsto> [get_csv_columns,
               [''2'', ''a'', ''t0'', ''success'', [], ''f'', [], [], [], [], [], [], [], []]]))"
proof -
  let ?log = "[get_csv_columns,
               [''2'', ''a'', ''t0'', ''success'', [], ''f'', [], [], [], [], [], [], [], []]]"
  have ran: "load_urls_from_csv done_fs ''in'' ''tmp'' = Inr []"
    unfolding done_fs_def by code_simp
  have ran': "load_urls_from_csv (done_fs(''out'' := None)) ''in'' ''tmp'' = Inr []"
    unfolding done_fs_def by code_simp
  have log: "done_fs ''tmp'' = Some ?log" and log': "(done_fs(''out'' := None)) ''tmp'' = Some ?log"
    by (simp_all add: done_fs_def)
  have there: "''out'' \<in> dom done_fs" and gone: "''out'' \<notin> dom (done_fs(''out'' := None))"
    by (simp_all add: done_fs_def)
  from nothing_pending_exit [OF ran log, of "''out''" quick_env] there
    nothing_pending_exit [OF ran' log', of "''out''" quick_env] gone
  show ?thesis by blast
qed

text \<open>
  Claim C6, at the input where the code departs from it. The only task of the run is
  done after 100 seconds, beyond the 60 seconds of line 187. \<open>as_completed\<close> yields
  its future when it is done, so \<open>future.result(timeout=60)\<close> returns the task's own
  result at once: the run finishes, and the record written for the work item has
  status \<open>success\<close> and an empty \<open>error_msg\<close>, not \<open>failed\<close> and a timeout
  message.
\<close>

theorem slow_task_recorded_with_own_result:
  "finish slow_env \<lparr>url = ''u'', original_row_num = 2\<rparr> = Some 100
   \<and> finished (batch_crawl_large_scale slow_env fresh_fs ''in'' ''out'' ''tmp'')
   \<and> files_after (batch_crawl_large_scale slow_env fresh_fs ''in'' ''out'' ''tmp'') ''out''
     = Some [get_csv_columns,
             [''2'', ''u'', ''t1'', ''success'', [], ''f'', [], [], [], [], [], [], [], []]]
   \<and> column ''crawl_status''
        [''2'', ''u'', ''t1'', ''success'', [], ''f'', [], [], [], [], [], [], [], []] = ''success''
   \<and> column ''error_msg''
        [''2'', ''u'', ''t1'', ''success'', [], ''f'', [], [], [], [], [], [], [], []] = []"
proof (intro conjI)
  show "finish slow_env \<lparr>url = ''u'', original_row_num = 2\<rparr> = Some 100"
    by (simp add: slow_env_def)
  show "finished (batch_crawl_large_scale slow_env fresh_fs ''in'' ''out'' ''tmp'')"
    unfolding slow_env_def quick_env_def fresh_fs_def by code_simp
  show "files_after (batch_crawl_large_scale slow_env fresh_fs ''in'' ''out'' ''tmp'') ''out''
     = Some [get_csv_columns,
             [''2'', ''u'', ''t1'', ''success'', [], ''f'', [], [], [], [], [], [], [], []]]"
    unfolding slow_env_def quick_env_def fresh_fs_def by code_simp
  show "column ''crawl_status''
        [''2'', ''u'', ''t1'', ''success'', [], ''f'', [], [], [], [], [], [], [], []] = ''success''"
    by code_simp
  show "column ''error_msg''
        [''2'', ''u'', ''t1'', ''success'', [], ''f'', [], [], [], [], [], [], [], []] = []"
    by code_simp
qed

end
